theory Spec2Isabelle
  imports Main "HOL-Library.List_Lexorder"
begin

section \<open>JavaScript strings\<close>

text \<open>
  A JavaScript string is a sequence of UTF-16 code units. A code unit is modelled as a
  natural number (real code units are below 65536; no function below does arithmetic on
  them, so the bound plays no role). String literals of the source are written with
  \<open>js\<close>, which maps each ASCII character to its code.
\<close>

type_synonym cu = nat
type_synonym jsstring = "cu list"

definition cc :: "char \<Rightarrow> cu" where
  "cc c = of_char c"

definition js :: "string \<Rightarrow> jsstring" where
  "js s = map cc s"

text \<open>
  \<open>WhiteSpace\<close> and \<open>LineTerminator\<close> of ECMAScript: the code units that
  \<open>String.prototype.trim\<close> strips and that the class escape \<open>\s\<close> matches.
\<close>

definition isWhiteSpace :: "cu \<Rightarrow> bool" where
  "isWhiteSpace c \<longleftrightarrow>
     c = 9 \<or> c = 10 \<or> c = 11 \<or> c = 12 \<or> c = 13 \<or> c = 32 \<or> c = 160 \<or> c = 5760 \<or>
     (8192 \<le> c \<and> c \<le> 8202) \<or> c = 8232 \<or> c = 8233 \<or> c = 8239 \<or> c = 8287 \<or>
     c = 12288 \<or> c = 65279"

definition trim :: "jsstring \<Rightarrow> jsstring" where
  "trim s = rev (dropWhile isWhiteSpace (rev (dropWhile isWhiteSpace s)))"

section \<open>Regular expressions of the source\<close>

text \<open>
  The regular expression literals of \<open>filterSensitiveContent\<close> use literal characters,
  character classes, the class escapes \<open>\d\<close> and \<open>\s\<close>, the assertion \<open>\b\<close>,
  sequencing, alternation, groups and greedy quantifiers. The group of \<open>phoneRegex\<close>
  is only quantified (the replacement text has no \<open>$n\<close>), so a group is its body.
\<close>

datatype classatom =
    CChar cu
  | CRange cu cu
  | CDigit
  | CSpace

datatype regex =
    Empty
  | Char cu
  | Class "classatom list"
  | WordBoundary
  | Seq regex regex
  | Alt regex regex
  | Repeat regex nat "nat option"

text \<open>
  \<open>Canonicalize\<close> of ECMAScript for a pattern without the \<open>u\<close> flag: with
  \<open>ignoreCase\<close> a code unit is replaced by its upper case, except that a code unit of 128
  or more is never mapped below 128. On ASCII this is the map of a-z to A-Z. The patterns
  of the source are ASCII only, so a code unit of 128 or more, whose canonical form is
  again 128 or more, matches none of their characters whatever its upper case is; it is
  left as it is here.
\<close>

definition canonicalize :: "bool \<Rightarrow> cu \<Rightarrow> cu" where
  "canonicalize ignoreCase c = (if ignoreCase \<and> 97 \<le> c \<and> c \<le> 122 then c - 32 else c)"

fun atomHas :: "classatom \<Rightarrow> cu \<Rightarrow> bool" where
  "atomHas (CChar a) c = (c = a)"
| "atomHas (CRange lo hi) c = (lo \<le> c \<and> c \<le> hi)"
| "atomHas CDigit c = (48 \<le> c \<and> c \<le> 57)"
| "atomHas CSpace c = isWhiteSpace c"

definition classHas :: "classatom list \<Rightarrow> cu \<Rightarrow> bool" where
  "classHas atoms c = list_ex (\<lambda>a. atomHas a c) atoms"

text \<open>
  \<open>CharacterSetMatcher\<close>: the class matches \<open>c\<close> when it has a member with the
  canonical form of \<open>c\<close>; with \<open>ignoreCase\<close> those members are \<open>c\<close> and its other
  ASCII case.
\<close>

definition classMatches :: "bool \<Rightarrow> classatom list \<Rightarrow> cu \<Rightarrow> bool" where
  "classMatches ignoreCase atoms c =
     (classHas atoms c \<or>
      (ignoreCase \<and> ((97 \<le> c \<and> c \<le> 122 \<and> classHas atoms (c - 32)) \<or>
                      (65 \<le> c \<and> c \<le> 90 \<and> classHas atoms (c + 32)))))"

text \<open>
  \<open>IsWordChar\<close>: the position before the start and the position at the end of the
  input are not word characters.
\<close>

fun isWordChar :: "cu option \<Rightarrow> bool" where
  "isWordChar None = False"
| "isWordChar (Some c) =
     ((97 \<le> c \<and> c \<le> 122) \<or> (65 \<le> c \<and> c \<le> 90) \<or> (48 \<le> c \<and> c \<le> 57) \<or> c = 95)"

fun first :: "jsstring \<Rightarrow> cu option" where
  "first [] = None"
| "first (c # s) = Some c"

text \<open>
  A matcher state is the code unit before the current position (\<open>None\<close> at the start of
  the input) and the input from the current position on. A matcher returns the states it
  can end in, in the order in which the backtracking matcher of ECMAScript tries them:
  the head of the list is the match the engine reports.
\<close>

type_synonym mstate = "cu option \<times> jsstring"

text \<open>
  \<open>RepeatMatcher\<close> for a greedy quantifier \<open>{min,max}\<close> (\<open>None\<close> is no upper
  bound): while \<open>min\<close> is not zero the body must match; after that, an iteration that
  consumed nothing is rejected, more iterations are tried first and stopping comes last.
\<close>

function repeatMatcher ::
  "(mstate \<Rightarrow> mstate list) \<Rightarrow> nat \<Rightarrow> nat option \<Rightarrow> mstate \<Rightarrow> mstate list" where
  "repeatMatcher m mn mx x =
     (if mx = Some 0 then [x]
      else if mn \<noteq> 0 then
        concat (map (\<lambda>y. repeatMatcher m (mn - 1) (map_option (\<lambda>k. k - 1) mx) y) (m x))
      else
        concat (map (\<lambda>y. repeatMatcher m 0 (map_option (\<lambda>k. k - 1) mx) y)
                    (filter (\<lambda>y. length (snd y) < length (snd x)) (m x)))
        @ [x])"
  by pat_completeness auto
termination
  by (relation "measures [\<lambda>(m, mn, mx, x). mn, \<lambda>(m, mn, mx, x). length (snd x)]") auto

declare repeatMatcher.simps [simp del]

fun matcher :: "bool \<Rightarrow> regex \<Rightarrow> mstate \<Rightarrow> mstate list" where
  "matcher ic Empty x = [x]"
| "matcher ic (Char a) (p, s) =
     (case s of [] \<Rightarrow> []
      | c # t \<Rightarrow> if canonicalize ic c = canonicalize ic a then [(Some c, t)] else [])"
| "matcher ic (Class atoms) (p, s) =
     (case s of [] \<Rightarrow> []
      | c # t \<Rightarrow> if classMatches ic atoms c then [(Some c, t)] else [])"
| "matcher ic WordBoundary (p, s) =
     (if isWordChar p \<noteq> isWordChar (first s) then [(p, s)] else [])"
| "matcher ic (Seq a b) x = concat (map (matcher ic b) (matcher ic a x))"
| "matcher ic (Alt a b) x = matcher ic a x @ matcher ic b x"
| "matcher ic (Repeat r mn mx) x = repeatMatcher (matcher ic r) mn mx x"

text \<open>
  \<open>String.prototype.replace\<close> with a global regular expression and a replacement text
  without \<open>$\<close>. Starting at \<open>lastIndex = 0\<close>, \<open>replaceLoop\<close> runs the matcher at
  the current position and \<open>afterExec\<close> acts on its answer: without a match there, the
  code unit at the position is copied and the search moves one position on (this is the
  scan of \<open>RegExpBuiltinExec\<close> for the first position that matches); with a match, the
  replacement is emitted and the search goes on from the end of the match, or, when the
  match is empty, one code unit further, that code unit being copied.
\<close>

function (sequential)
  replaceLoop :: "bool \<Rightarrow> regex \<Rightarrow> jsstring \<Rightarrow> mstate \<Rightarrow> jsstring" and
  afterExec :: "bool \<Rightarrow> regex \<Rightarrow> jsstring \<Rightarrow> mstate \<Rightarrow> mstate list \<Rightarrow> jsstring" where
  "replaceLoop ic r replacement (p, s) =
     afterExec ic r replacement (p, s) (matcher ic r (p, s))"
| "afterExec ic r replacement (p, []) [] = []"
| "afterExec ic r replacement (p, c # t) [] = c # replaceLoop ic r replacement (Some c, t)"
| "afterExec ic r replacement (p, s) ((p', s') # _) =
     (if length s' < length s then replacement @ replaceLoop ic r replacement (p', s')
      else replacement @ afterExec ic r replacement (p, s) [])"
  by pat_completeness auto
termination
  by (relation "measure (\<lambda>x. case x of
          Inl (ic, r, replacement, (p, s)) \<Rightarrow> 3 * length s + 2
        | Inr (ic, r, replacement, (p, s), ms) \<Rightarrow> 3 * length s + (if ms = [] then 0 else 1))")
     auto

declare replaceLoop.simps [simp del]

definition replaceAll :: "bool \<Rightarrow> regex \<Rightarrow> jsstring \<Rightarrow> jsstring \<Rightarrow> jsstring" where
  "replaceAll ic r replacement s = replaceLoop ic r replacement (None, s)"

section \<open>The content filter (routes/chat.js)\<close>

fun seq :: "regex list \<Rightarrow> regex" where
  "seq [] = Empty"
| "seq (r # rs) = Seq r (seq rs)"

definition lit :: "string \<Rightarrow> regex" where
  "lit s = seq (map (\<lambda>c. Char (cc c)) s)"

definition plus :: "regex \<Rightarrow> regex" where
  "plus r = Repeat r 1 None"

definition opt :: "regex \<Rightarrow> regex" where
  "opt r = Repeat r 0 (Some 1)"

definition range :: "char \<Rightarrow> char \<Rightarrow> classatom" where
  "range a b = CRange (cc a) (cc b)"

definition one :: "char \<Rightarrow> classatom" where
  "one a = CChar (cc a)"

text \<open>\<^verbatim>\<open>/\b[A-Za-z0-9._%+-]+@[A-Za-z0-9.-]+\.[A-Z|a-z]{2,}\b/g\<close>\<close>

definition emailRegex :: regex where
  "emailRegex = seq
     [WordBoundary,
      plus (Class [range CHR ''A'' CHR ''Z'', range CHR ''a'' CHR ''z'', range CHR ''0'' CHR ''9'',
                   one CHR ''.'', one CHR ''_'', one CHR ''%'', one CHR ''+'', one CHR ''-'']),
      Char (cc CHR ''@''),
      plus (Class [range CHR ''A'' CHR ''Z'', range CHR ''a'' CHR ''z'', range CHR ''0'' CHR ''9'',
                   one CHR ''.'', one CHR ''-'']),
      Char (cc CHR ''.''),
      Repeat (Class [range CHR ''A'' CHR ''Z'', one CHR ''|'', range CHR ''a'' CHR ''z'']) 2 None,
      WordBoundary]"

text \<open>\<^verbatim>\<open>/(\+?\d{1,4}[-.\s]?)?\(?\d{1,4}\)?[-.\s]?\d{1,4}[-.\s]?\d{1,9}/g\<close>\<close>

definition separator :: regex where
  "separator = Class [one CHR ''-'', one CHR ''.'', CSpace]"

definition phoneRegex :: regex where
  "phoneRegex = seq
     [opt (seq [opt (Char (cc CHR ''+'')), Repeat (Class [CDigit]) 1 (Some 4), opt separator]),
      opt (Char (cc CHR ''('')),
      Repeat (Class [CDigit]) 1 (Some 4),
      opt (Char (cc CHR '')'')),
      opt separator,
      Repeat (Class [CDigit]) 1 (Some 4),
      opt separator,
      Repeat (Class [CDigit]) 1 (Some 9)]"

text \<open>\<^verbatim>\<open>/whatsapp|wa\.me|t\.me|telegram/gi\<close>\<close>

definition whatsappRegex :: regex where
  "whatsappRegex =
     Alt (lit ''whatsapp'') (Alt (lit ''wa.me'') (Alt (lit ''t.me'') (lit ''telegram'')))"

text \<open>\<^verbatim>\<open>/@[a-zA-Z0-9._]+/g\<close>\<close>

definition socialRegex :: regex where
  "socialRegex = seq
     [Char (cc CHR ''@''),
      plus (Class [range CHR ''a'' CHR ''z'', range CHR ''A'' CHR ''Z'', range CHR ''0'' CHR ''9'',
                   one CHR ''.'', one CHR ''_''])]"

definition mask :: jsstring where
  "mask = js ''*****''"

definition filterSensitiveContent :: "jsstring \<Rightarrow> jsstring" where
  "filterSensitiveContent message =
     (let filteredMessage = message;
          filteredMessage = replaceAll False emailRegex mask filteredMessage;
          filteredMessage = replaceAll False phoneRegex mask filteredMessage;
          filteredMessage = replaceAll True whatsappRegex mask filteredMessage;
          filteredMessage = replaceAll False socialRegex mask filteredMessage
      in filteredMessage)"

section \<open>Occurrence of a text in a string\<close>

text \<open>
  Occurrence of a text in a string, for the statements about the filter: \<open>occursAt\<close>
  holds when \<open>k\<close> is at the start of \<open>s\<close>, \<open>occursIn\<close> when it is somewhere in
  \<open>s\<close>. Code units are compared as the matcher compares a pattern character: after
  \<open>canonicalize\<close>, so that with \<open>ic\<close> the occurrence may be in any letter case.
\<close>

fun occursAt :: "bool \<Rightarrow> jsstring \<Rightarrow> jsstring \<Rightarrow> bool" where
  "occursAt ic [] s = True"
| "occursAt ic (a # k) [] = False"
| "occursAt ic (a # k) (c # t) = (canonicalize ic c = canonicalize ic a \<and> occursAt ic k t)"

fun occursIn :: "bool \<Rightarrow> jsstring \<Rightarrow> jsstring \<Rightarrow> bool" where
  "occursIn ic k [] = occursAt ic k []"
| "occursIn ic k (c # t) = (occursAt ic k (c # t) \<or> occursIn ic k t)"

text \<open>
  \<open>behind x y\<close>: the position of \<open>y\<close> is the position of \<open>x\<close> or further on in
  the same input.
\<close>

definition behind :: "mstate \<Rightarrow> mstate \<Rightarrow> bool" where
  "behind x y \<longleftrightarrow> (\<exists>u. snd x = u @ snd y)"

text \<open>The four alternatives of \<open>whatsappRegex\<close>.\<close>

definition appWords :: "jsstring list" where
  "appWords = [js ''whatsapp'', js ''wa.me'', js ''t.me'', js ''telegram'']"

section \<open>The store (db/schema.sql)\<close>

text \<open>
  A \<open>TIMESTAMPTZ\<close> value, and the ISO text \<open>toISOString\<close> renders of it, is a number
  of milliseconds. A nullable column is an \<open>option\<close>. The tables \<open>users\<close> and
  \<open>conversations\<close> are maps from their primary key; \<open>messages\<close> is the list of its
  rows in insertion order.
\<close>

type_synonym instant = nat

text \<open>
  The columns of \<open>users\<close> that the handlers read. \<open>authMiddleware\<close> builds
  \<open>req.user\<close> from the same four columns of the caller's row, so \<open>req.user\<close> has this
  type too; it has no \<open>fullName\<close> field.
\<close>

record user =
  uid :: jsstring
  email :: "jsstring option"
  role :: jsstring
  display_name :: "jsstring option"

record participant_detail =
  name :: "jsstring option"
  detail_role :: jsstring

record conversation_row =
  conv_id :: jsstring
  participants :: "jsstring list"
  participant_details :: "(jsstring \<times> participant_detail) list option"
  last_message :: "jsstring option"
  last_message_time :: "instant option"
  last_message_sender :: "jsstring option"
  created_at :: instant
  updated_at :: instant

record message_row =
  msg_id :: jsstring
  conversation_id :: jsstring
  sender_id :: jsstring
  sender_name :: "jsstring option"
  message_text :: jsstring
  message_timestamp :: instant
  is_filtered :: bool

record db =
  users :: "jsstring \<rightharpoonup> user"
  conversations :: "jsstring \<rightharpoonup> conversation_row"
  messages :: "message_row list"

text \<open>The JSON objects of the responses.\<close>

record conversation_view =
  id :: jsstring
  participantsOf :: "jsstring list"
  participantDetails :: "(jsstring \<times> participant_detail) list option"
  lastMessage :: "jsstring option"
  lastMessageTime :: "instant option"
  createdAt :: instant
  updatedAt :: instant

record message_data =
  messageId :: jsstring
  senderId :: jsstring
  senderName :: "jsstring option"
  message :: jsstring
  timestamp :: instant
  isFiltered :: bool

text \<open>\<open>res.status(code).json({ message })\<close> of a rejected request.\<close>

datatype http_error = HttpError nat string

text \<open>
  Text on its way into a \<open>TEXT\<close> column. The driver sends a query parameter as UTF-8,
  in which a surrogate that is not half of a pair becomes U+FFFD, and Postgres refuses
  text that holds U+0000, so that the query throws. \<open>pgText\<close> is the text the column
  then holds, \<open>None\<close> when the query throws. \<open>isWellFormed\<close> is
  \<open>String.prototype.isWellFormed\<close>: no surrogate without its partner.
\<close>

definition isLeadSurrogate :: "cu \<Rightarrow> bool" where
  "isLeadSurrogate c \<longleftrightarrow> 55296 \<le> c \<and> c \<le> 56319"

definition isTrailSurrogate :: "cu \<Rightarrow> bool" where
  "isTrailSurrogate c \<longleftrightarrow> 56320 \<le> c \<and> c \<le> 57343"

fun toWellFormed :: "jsstring \<Rightarrow> jsstring" where
  "toWellFormed [] = []"
| "toWellFormed [c] = (if isLeadSurrogate c \<or> isTrailSurrogate c then [65533] else [c])"
| "toWellFormed (c # c' # s) =
     (if isLeadSurrogate c \<and> isTrailSurrogate c' then c # c' # toWellFormed s
      else if isLeadSurrogate c \<or> isTrailSurrogate c then 65533 # toWellFormed (c' # s)
      else c # toWellFormed (c' # s))"

fun isWellFormed :: "jsstring \<Rightarrow> bool" where
  "isWellFormed [] = True"
| "isWellFormed [c] = (\<not> isLeadSurrogate c \<and> \<not> isTrailSurrogate c)"
| "isWellFormed (c # c' # s) =
     (if isLeadSurrogate c \<and> isTrailSurrogate c' then isWellFormed s
      else \<not> isLeadSurrogate c \<and> \<not> isTrailSurrogate c \<and> isWellFormed (c' # s))"

definition pgText :: "jsstring \<Rightarrow> jsstring option" where
  "pgText s = (if 0 \<in> set s then None else Some (toWellFormed s))"

section \<open>The chat handlers (routes/chat.js)\<close>

text \<open>\<open>a || b\<close> on values that are a string, \<open>null\<close> or \<open>undefined\<close>.\<close>

definition js_or :: "jsstring option \<Rightarrow> jsstring option \<Rightarrow> jsstring option" where
  "js_or a b = (case a of None \<Rightarrow> b | Some s \<Rightarrow> if s = [] then b else Some s)"

text \<open>The object built from a row of \<open>conversations\<close> in every response.\<close>

definition conversationOfRow :: "conversation_row \<Rightarrow> conversation_view" where
  "conversationOfRow row =
     \<lparr>id = conv_id row,
      participantsOf = participants row,
      participantDetails = participant_details row,
      lastMessage = last_message row,
      lastMessageTime = last_message_time row,
      createdAt = created_at row,
      updatedAt = updated_at row\<rparr>"

text \<open>
  \<open>validCombinations\<close> of the handler of \<open>POST /conversations\<close>; the request goes on
  when \<open>validCombinations.some(combo => combo)\<close>.
\<close>

definition validCombinations :: "jsstring \<Rightarrow> jsstring \<Rightarrow> bool list" where
  "validCombinations currentUserRole participantRole =
     [currentUserRole = js ''brand'' \<and>
        participantRole \<in> set [js ''influencer'', js ''ugc_creator''],
      currentUserRole \<in> set [js ''influencer'', js ''ugc_creator''] \<and>
        participantRole = js ''brand'']"

text \<open>
  \<open>[currentUserId, participantId].sort().join('_')\<close>. \<open>Array.prototype.sort\<close> without
  a comparator orders strings by their code units, the order of \<open>List_Lexorder\<close> on
  \<open>jsstring\<close>.
\<close>

fun join :: "jsstring \<Rightarrow> jsstring list \<Rightarrow> jsstring" where
  "join sep [] = []"
| "join sep [x] = x"
| "join sep (x # y # ys) = x @ sep @ join sep (y # ys)"

definition conversationId :: "jsstring \<Rightarrow> jsstring \<Rightarrow> jsstring" where
  "conversationId currentUserId participantId =
     join (js ''_'') (sort [currentUserId, participantId])"

text \<open>
  \<open>POST /conversations\<close>. \<open>participantId\<close> is \<open>req.body.participantId\<close>
  (\<open>None\<close> when absent); \<open>now1\<close> and \<open>now2\<close> are the two readings of the clock for
  \<open>createdAt\<close> and \<open>updatedAt\<close>. The result is the response and the store after the
  request; a successful response is the status, \<open>conversationId\<close> and \<open>conversation\<close>.
\<close>

definition createOrGetConversation ::
  "db \<Rightarrow> user \<Rightarrow> jsstring option \<Rightarrow> instant \<Rightarrow> instant \<Rightarrow>
   (http_error + nat \<times> jsstring \<times> conversation_view) \<times> db" where
  "createOrGetConversation d reqUser participantIdOpt now1 now2 =
     (let currentUserId = uid reqUser in
      case participantIdOpt of
        None \<Rightarrow> (Inl (HttpError 400 ''Participant ID is required''), d)
      | Some participantId \<Rightarrow>
          if participantId = [] then (Inl (HttpError 400 ''Participant ID is required''), d)
          else if participantId = currentUserId then
            (Inl (HttpError 400 ''Cannot create conversation with yourself''), d)
          else
            (case users d participantId of
               None \<Rightarrow> (Inl (HttpError 404 ''Participant not found''), d)
             | Some participantData \<Rightarrow>
                 let currentUserRole = role reqUser;
                     participantRole = role participantData
                 in
                 if \<not> list_ex (\<lambda>combo. combo)
                        (validCombinations currentUserRole participantRole) then
                   (Inl (HttpError 403
                      ''Chat is only allowed between brands and influencers/UGC creators''), d)
                 else
                   let cid = conversationId currentUserId participantId in
                   (case conversations d cid of
                      Some row \<Rightarrow> (Inr (200, cid, conversationOfRow row), d)
                    | None \<Rightarrow>
                        let conversationData =
                              \<lparr>id = cid,
                               participantsOf = [currentUserId, participantId],
                               participantDetails = Some
                                 [(currentUserId,
                                   \<lparr>name = js_or None (email reqUser),
                                    detail_role = currentUserRole\<rparr>),
                                  (participantId,
                                   \<lparr>name = js_or (display_name participantData)
                                             (email participantData),
                                    detail_role = participantRole\<rparr>)],
                               lastMessage = None,
                               lastMessageTime = None,
                               createdAt = now1,
                               updatedAt = now2\<rparr>;
                            row =
                              \<lparr>conv_id = id conversationData,
                               participants = participantsOf conversationData,
                               participant_details = participantDetails conversationData,
                               last_message = lastMessage conversationData,
                               last_message_time = lastMessageTime conversationData,
                               last_message_sender = None,
                               created_at = createdAt conversationData,
                               updated_at = updatedAt conversationData\<rparr>
                        in (Inr (201, cid, conversationData),
                            d\<lparr>conversations := (conversations d)(cid \<mapsto> row)\<rparr>))))"

text \<open>
  \<open>POST /conversations/:conversationId/messages\<close>. \<open>messageOpt\<close> is
  \<open>req.body.message\<close>; \<open>newId\<close> is the identifier the handler generates from the clock
  and a random number, \<open>now\<close> the reading of the clock for \<open>timestamp\<close>. The
  \<open>INSERT\<close> throws on a message text that Postgres refuses and, by the primary key of
  \<open>messages\<close>, on an identifier already there; the handler answers both with 500 and
  nothing is written. The message is the one free text of the request that is written:
  the identifiers of the \<open>INSERT\<close> and the \<open>UPDATE\<close> were made by the server or read
  from the store. The response carries the filtered text itself, the two tables the text
  as the column holds it. A successful response is the status, \<open>message\<close> and
  \<open>isFiltered\<close>.
\<close>

definition sendMessage ::
  "db \<Rightarrow> user \<Rightarrow> jsstring \<Rightarrow> jsstring option \<Rightarrow> jsstring \<Rightarrow> instant \<Rightarrow>
   (http_error + nat \<times> message_data \<times> bool) \<times> db" where
  "sendMessage d reqUser conversationIdParam messageOpt newId now =
     (let currentUserId = uid reqUser in
      case messageOpt of
        None \<Rightarrow> (Inl (HttpError 400 ''Message content is required''), d)
      | Some rawMessage \<Rightarrow>
          if rawMessage = [] \<or> length (trim rawMessage) = 0 then
            (Inl (HttpError 400 ''Message content is required''), d)
          else
            (case conversations d conversationIdParam of
               None \<Rightarrow> (Inl (HttpError 404 ''Conversation not found''), d)
             | Some conversationData \<Rightarrow>
                 if currentUserId \<notin> set (participants conversationData) then
                   (Inl (HttpError 403 ''You are not a participant in this conversation''), d)
                 else
                   let filteredMessage = filterSensitiveContent (trim rawMessage);
                       messageData =
                         \<lparr>messageId = newId,
                          senderId = currentUserId,
                          senderName = js_or None (email reqUser),
                          message = filteredMessage,
                          timestamp = now,
                          isFiltered = (filteredMessage \<noteq> trim rawMessage)\<rparr>
                   in
                   (case pgText (message messageData) of
                      None \<Rightarrow> (Inl (HttpError 500 ''Server error while sending message''), d)
                    | Some storedMessage \<Rightarrow>
                        if list_ex (\<lambda>m. msg_id m = messageId messageData) (messages d) then
                          (Inl (HttpError 500 ''Server error while sending message''), d)
                        else
                          let inserted =
                                d\<lparr>messages := messages d @
                                   [\<lparr>msg_id = messageId messageData,
                                     conversation_id = conversationIdParam,
                                     sender_id = senderId messageData,
                                     sender_name = senderName messageData,
                                     message_text = storedMessage,
                                     message_timestamp = timestamp messageData,
                                     is_filtered = isFiltered messageData\<rparr>]\<rparr>;
                              updated =
                                inserted\<lparr>conversations := (conversations inserted)
                                   (conversationIdParam \<mapsto>
                                      conversationData
                                        \<lparr>last_message := Some storedMessage,
                                         last_message_time := Some (timestamp messageData),
                                         last_message_sender := Some currentUserId,
                                         updated_at := timestamp messageData\<rparr>)\<rparr>
                          in (Inr (201, messageData, isFiltered messageData), updated))))"

text \<open>
  \<open>GET /conversations/:conversationId/messages\<close>. \<open>page\<close> is \<open>req.query.page\<close>
  (default 1); \<open>limit\<close> is the value of \<open>parseInt(limit)\<close> (default 50), \<open>None\<close>
  when it is \<open>NaN\<close>. Postgres rejects a \<open>LIMIT\<close> that is not a non-negative
  \<open>bigint\<close>, which the handler answers with 500. Rows of equal \<open>timestamp\<close> come in
  an order SQL does not fix; the model takes the one of a stable sort.
\<close>

definition messageOfRow :: "message_row \<Rightarrow> message_data" where
  "messageOfRow m =
     \<lparr>messageId = msg_id m,
      senderId = sender_id m,
      senderName = sender_name m,
      message = message_text m,
      timestamp = message_timestamp m,
      isFiltered = is_filtered m\<rparr>"

definition orderByTimestampDesc :: "message_row list \<Rightarrow> message_row list" where
  "orderByTimestampDesc rows = rev (sort_key message_timestamp rows)"

definition selectMessages :: "db \<Rightarrow> jsstring \<Rightarrow> nat \<Rightarrow> message_data list" where
  "selectMessages d cid n =
     map messageOfRow
       (take n (orderByTimestampDesc (filter (\<lambda>m. conversation_id m = cid) (messages d))))"

definition listMessages ::
  "db \<Rightarrow> user \<Rightarrow> jsstring \<Rightarrow> nat \<Rightarrow> int option \<Rightarrow>
   (http_error + nat \<times> message_data list \<times> conversation_view) \<times> db" where
  "listMessages d reqUser conversationIdParam page limit =
     (let currentUserId = uid reqUser in
      case conversations d conversationIdParam of
        None \<Rightarrow> (Inl (HttpError 404 ''Conversation not found''), d)
      | Some conversationRow \<Rightarrow>
          if currentUserId \<notin> set (participants conversationRow) then
            (Inl (HttpError 403 ''You are not a participant in this conversation''), d)
          else
            (case limit of
               None \<Rightarrow> (Inl (HttpError 500 ''Server error while fetching messages''), d)
             | Some n \<Rightarrow>
                 if n < 0 \<or> n > 9223372036854775807 then
                   (Inl (HttpError 500 ''Server error while fetching messages''), d)
                 else
                   let msgRes = selectMessages d conversationIdParam (nat n);
                       messagesOut = rev msgRes
                   in (Inr (200, messagesOut, conversationOfRow conversationRow), d)))"

section \<open>A small store for the concrete cases\<close>

text \<open>
  Three accounts, one of each role that may chat; \<open>directory\<close> holds them and no
  conversation. \<open>chatDb\<close> is \<open>directory\<close> with the conversation of the brand and the
  influencer, created at time 1000; \<open>historyDb\<close> adds two stored messages to it.
\<close>

definition brandUser :: user where
  "brandUser = \<lparr>uid = js ''u_brand'', email = Some (js ''brand@shop.io''),
                 role = js ''brand'', display_name = None\<rparr>"

definition creatorUser :: user where
  "creatorUser = \<lparr>uid = js ''u_creator'', email = Some (js ''creator@mail.io''),
                   role = js ''influencer'', display_name = Some (js ''Creator'')\<rparr>"

definition otherUser :: user where
  "otherUser = \<lparr>uid = js ''u_other'', email = None,
                 role = js ''ugc_creator'', display_name = Some (js ''Other'')\<rparr>"

definition directory :: db where
  "directory =
     \<lparr>users = [js ''u_brand'' \<mapsto> brandUser, js ''u_creator'' \<mapsto> creatorUser,
               js ''u_other'' \<mapsto> otherUser],
      conversations = Map.empty,
      messages = []\<rparr>"

definition chatId :: jsstring where
  "chatId = js ''u_brand_u_creator''"

definition chatRow :: conversation_row where
  "chatRow =
     \<lparr>conv_id = chatId,
      participants = [js ''u_brand'', js ''u_creator''],
      participant_details = Some
        [(js ''u_brand'', \<lparr>name = Some (js ''brand@shop.io''), detail_role = js ''brand''\<rparr>),
         (js ''u_creator'', \<lparr>name = Some (js ''Creator''), detail_role = js ''influencer''\<rparr>)],
      last_message = None,
      last_message_time = None,
      last_message_sender = None,
      created_at = 1000,
      updated_at = 1000\<rparr>"

definition chatDb :: db where
  "chatDb = directory\<lparr>conversations := [chatId \<mapsto> chatRow]\<rparr>"

definition olderRow :: message_row where
  "olderRow =
     \<lparr>msg_id = js ''msg_1'', conversation_id = chatId, sender_id = js ''u_brand'',
      sender_name = Some (js ''brand@shop.io''), message_text = js ''hello'',
      message_timestamp = 2000, is_filtered = False\<rparr>"

definition newerRow :: message_row where
  "newerRow =
     \<lparr>msg_id = js ''msg_2'', conversation_id = chatId, sender_id = js ''u_creator'',
      sender_name = Some (js ''creator@mail.io''), message_text = js ''hi'',
      message_timestamp = 3000, is_filtered = False\<rparr>"

definition historyRow :: conversation_row where
  "historyRow =
     chatRow\<lparr>last_message := Some (js ''hi''),
             last_message_time := Some 3000,
             last_message_sender := Some (js ''u_creator''),
             updated_at := 3000\<rparr>"

definition historyDb :: db where
  "historyDb =
     chatDb\<lparr>conversations := [chatId \<mapsto> historyRow], messages := [olderRow, newerRow]\<rparr>"

section \<open>Facts about the handlers\<close>

lemmas store_defs = brandUser_def creatorUser_def otherUser_def directory_def chatId_def
  chatRow_def chatDb_def olderRow_def newerRow_def historyRow_def historyDb_def js_def cc_def

lemma role_names_distinct:
  "js ''brand'' \<noteq> js ''influencer''" "js ''brand'' \<noteq> js ''ugc_creator''"
  "js ''influencer'' \<noteq> js ''ugc_creator''"
  by (simp_all add: js_def cc_def)

lemma sort_pair: "sort [a, b :: jsstring] = (if a \<le> b then [a, b] else [b, a])"
  by simp

lemma conversationId_eq:
  "conversationId a b = min a b @ js ''_'' @ max a b"
  by (auto simp: conversationId_def min_def max_def)

lemma conversationId_commute: "conversationId a b = conversationId b a"
  by (simp add: conversationId_eq min.commute max.commute)

lemma some_validCombinations:
  "list_ex (\<lambda>combo. combo) (validCombinations r1 r2) \<longleftrightarrow>
     (r1 = js ''brand'' \<and> (r2 = js ''influencer'' \<or> r2 = js ''ugc_creator'')) \<or>
     ((r1 = js ''influencer'' \<or> r1 = js ''ugc_creator'') \<and> r2 = js ''brand'')"
  by (auto simp: validCombinations_def)


text \<open>
  What a successful response of \<open>POST /conversations\<close> says about the request and the
  store: every check of the handler was passed, the identifier is the derived one, and
  only the row of that identifier can have been added.
\<close>

lemma createOrGetConversation_success:
  assumes "createOrGetConversation d u pidOpt n1 n2 = (Inr (st, cid, conv), d')"
  shows "\<exists>pid pdata. pidOpt = Some pid \<and> pid \<noteq> [] \<and> pid \<noteq> uid u \<and>
           users d pid = Some pdata \<and>
           list_ex (\<lambda>combo. combo) (validCombinations (role u) (role pdata)) \<and>
           cid = conversationId (uid u) pid \<and>
           (\<exists>row. conversations d' cid = Some row \<and> conv = conversationOfRow row) \<and>
           users d' = users d \<and> messages d' = messages d \<and>
           (case conversations d cid of
              Some row \<Rightarrow> st = 200 \<and> d' = d
            | None \<Rightarrow> st = 201 \<and> (\<forall>k. k \<noteq> cid \<longrightarrow> conversations d' k = conversations d k))"
  using assms
  by (auto simp: createOrGetConversation_def Let_def conversationOfRow_def
           split: option.splits if_splits)

subsection \<open>Sending a message\<close>

lemma toWellFormed_id: "isWellFormed s \<Longrightarrow> toWellFormed s = s"
  by (induction s rule: isWellFormed.induct) (auto split: if_splits)

text \<open>
  Claim C1, as the handler and the column have it. For every successful \<open>sendMessage\<close>
  the response carries the content filter applied to the trimmed raw text, and the stored
  message text is that text as the \<open>TEXT\<close> column holds it: the same text when it has
  no surrogate without its partner, and the text with U+FFFD in the place of each such
  surrogate otherwise. The stored \<open>isFiltered\<close> flag is true exactly when the filtered
  text differs from the trimmed raw text, and the conversation's \<open>lastMessage\<close> is the
  stored message text with \<open>lastMessageTime\<close> the timestamp of the stored message. The
  row appended to \<open>messages\<close> is the only change of that table.
\<close>

theorem sendMessage_success:
  assumes "sendMessage d u cid (Some raw) newId now = (Inr (st, msg, flt), d')"
  shows "message msg = filterSensitiveContent (trim raw) \<and>
         (isFiltered msg \<longleftrightarrow> filterSensitiveContent (trim raw) \<noteq> trim raw) \<and>
         flt = isFiltered msg \<and>
         messages d' = messages d @
           [\<lparr>msg_id = newId, conversation_id = cid, sender_id = uid u,
             sender_name = senderName msg,
             message_text = toWellFormed (filterSensitiveContent (trim raw)),
             message_timestamp = timestamp msg,
             is_filtered = (filterSensitiveContent (trim raw) \<noteq> trim raw)\<rparr>] \<and>
         (isWellFormed (filterSensitiveContent (trim raw)) \<longrightarrow>
            message_text (last (messages d')) = filterSensitiveContent (trim raw)) \<and>
         0 \<notin> set (filterSensitiveContent (trim raw)) \<and>
         map_option last_message (conversations d' cid) =
           Some (Some (message_text (last (messages d')))) \<and>
         map_option last_message_time (conversations d' cid) =
           Some (Some (message_timestamp (last (messages d'))))"
proof -
  let ?f = "filterSensitiveContent (trim raw)"
  from assms have ok: "pgText ?f = Some (toWellFormed ?f)" and nul: "0 \<notin> set ?f"
    by (auto simp: sendMessage_def Let_def pgText_def split: option.splits if_splits)
  from assms ok have
    "message msg = ?f \<and> (isFiltered msg \<longleftrightarrow> ?f \<noteq> trim raw) \<and> flt = isFiltered msg \<and>
     messages d' = messages d @
       [\<lparr>msg_id = newId, conversation_id = cid, sender_id = uid u,
         sender_name = senderName msg, message_text = toWellFormed ?f,
         message_timestamp = timestamp msg, is_filtered = (?f \<noteq> trim raw)\<rparr>] \<and>
     map_option last_message (conversations d' cid) = Some (Some (toWellFormed ?f)) \<and>
     map_option last_message_time (conversations d' cid) = Some (Some (timestamp msg))"
    by (auto simp: sendMessage_def Let_def split: option.splits if_splits)
  with nul show ?thesis
    by (simp add: toWellFormed_id)
qed


subsection \<open>Creating or fetching a conversation\<close>

text \<open>
  Claim C2. For a participant who is in the directory and is not the caller (user
  identifiers are not empty: \<open>register\<close> makes them as \<open>u_\<close> and a number), the
  request succeeds exactly when one role is \<open>brand\<close> and the other is \<open>influencer\<close> or
  \<open>ugc_creator\<close>, in either direction; brand with brand and influencer with
  \<open>ugc_creator\<close> are answered with 403.
\<close>

theorem createOrGetConversation_pairing:
  assumes "participantId \<noteq> []" and "participantId \<noteq> uid reqUser"
    and "users d participantId = Some participantData"
  shows "((\<exists>st cid conv d'.
            createOrGetConversation d reqUser (Some participantId) now1 now2 =
              (Inr (st, cid, conv), d')) \<longleftrightarrow>
          (role reqUser = js ''brand'' \<and>
             (role participantData = js ''influencer'' \<or>
              role participantData = js ''ugc_creator'')) \<or>
          ((role reqUser = js ''influencer'' \<or> role reqUser = js ''ugc_creator'') \<and>
             role participantData = js ''brand'')) \<and>
         (\<not> ((role reqUser = js ''brand'' \<and>
               (role participantData = js ''influencer'' \<or>
                role participantData = js ''ugc_creator'')) \<or>
             ((role reqUser = js ''influencer'' \<or> role reqUser = js ''ugc_creator'') \<and>
                role participantData = js ''brand'')) \<longrightarrow>
          createOrGetConversation d reqUser (Some participantId) now1 now2 =
            (Inl (HttpError 403
               ''Chat is only allowed between brands and influencers/UGC creators''), d)) \<and>
         ((role reqUser = js ''brand'' \<and> role participantData = js ''brand'') \<or>
          (role reqUser = js ''influencer'' \<and> role participantData = js ''ugc_creator'') \<or>
          (role reqUser = js ''ugc_creator'' \<and> role participantData = js ''influencer'') \<longrightarrow>
          createOrGetConversation d reqUser (Some participantId) now1 now2 =
            (Inl (HttpError 403
               ''Chat is only allowed between brands and influencers/UGC creators''), d))"
  using assms role_names_distinct
  by (auto simp: createOrGetConversation_def Let_def some_validCombinations
           split: option.splits)

text \<open>
  Claim C8. A request whose participant is the caller is answered with 400
  \<open>Cannot create conversation with yourself\<close> and leaves the store as it was. (The
  empty text is no user identifier; the handler takes it for a missing \<open>participantId\<close>.)
\<close>

theorem createOrGetConversation_self:
  assumes "A \<noteq> []" and "uid reqUser = A"
  shows "createOrGetConversation d reqUser (Some A) now1 now2 =
           (Inl (HttpError 400 ''Cannot create conversation with yourself''), d)"
  using assms by (simp add: createOrGetConversation_def)

text \<open>
  Claim C4. When A asks for a conversation with B and B asks for one with A, both
  successful responses carry the same identifier: the smaller of the two user identifiers
  in code unit order, an underscore, and the larger.
\<close>

theorem conversationId_order_independent:
  assumes "createOrGetConversation d1 userA (Some B) n1 n2 = (Inr (st1, cid1, conv1), d1')"
    and "createOrGetConversation d2 userB (Some A) n3 n4 = (Inr (st2, cid2, conv2), d2')"
    and "uid userA = A" and "uid userB = B"
  shows "cid1 = cid2 \<and> cid1 = min A B @ js ''_'' @ max A B"
  using createOrGetConversation_success [OF assms(1)]
    createOrGetConversation_success [OF assms(2)] assms(3,4)
  by (auto simp: conversationId_eq min.commute max.commute)

text \<open>
  Claim C3, as the handler has it. The handler looks the participant up and checks the two
  roles before it looks for the conversation, at every call. When at the second call the
  participant is still in the directory and the roles still pair, the second call returns
  the record of the first call with status 200 and changes nothing in the store.
\<close>

theorem createOrGetConversation_second_call:
  assumes "createOrGetConversation d reqUser (Some participantId) n1 n2 =
             (Inr (st, cid, conv), d1)"
    and "conversations d2 = conversations d1"
    and "uid reqUser2 = uid reqUser"
    and "users d2 participantId = Some participantData2"
    and "list_ex (\<lambda>combo. combo)
           (validCombinations (role reqUser2) (role participantData2))"
  shows "createOrGetConversation d2 reqUser2 (Some participantId) n3 n4 =
           (Inr (200, cid, conv), d2)"
  using createOrGetConversation_success [OF assms(1)] assms(2-5)
  by (auto simp: createOrGetConversation_def Let_def)

text \<open>
  The claim that roles are not validated again fails: once the participant's role in the
  directory has become \<open>brand\<close>, the second call of the same pair is answered with 403
  although the conversation of the first call is in the store.
\<close>

theorem createOrGetConversation_second_call_counterexample:
  "createOrGetConversation directory brandUser (Some (js ''u_creator'')) 1000 1000 =
     (Inr (201, chatId, conversationOfRow chatRow), chatDb) \<and>
   createOrGetConversation
     (chatDb\<lparr>users := (users chatDb)(js ''u_creator'' \<mapsto> creatorUser\<lparr>role := js ''brand''\<rparr>)\<rparr>)
     brandUser (Some (js ''u_creator'')) 2000 2000 =
     (Inl (HttpError 403 ''Chat is only allowed between brands and influencers/UGC creators''),
      chatDb\<lparr>users := (users chatDb)(js ''u_creator'' \<mapsto> creatorUser\<lparr>role := js ''brand''\<rparr>)\<rparr>)"
  by (simp add: createOrGetConversation_def validCombinations_def conversationId_def
        conversationOfRow_def js_or_def Let_def store_defs)

subsection \<open>Listing messages\<close>

lemma listMessages_page_irrelevant:
  "listMessages d reqUser cid page limit = listMessages d reqUser cid page' limit"
  by (simp add: listMessages_def)

lemma sorted_rev_take_rev:
  assumes "sorted (xs :: nat list)"
  shows "sorted (rev (take n (rev xs)))"
  using assms by (simp add: take_rev sorted_wrt_drop)

lemma selectMessages_sorted: "sorted (map timestamp (rev (selectMessages d cid n)))"
proof -
  let ?rows = "filter (\<lambda>m. conversation_id m = cid) (messages d)"
  have "map timestamp (rev (selectMessages d cid n)) =
          rev (take n (rev (map message_timestamp (sort_key message_timestamp ?rows))))"
    by (simp add: selectMessages_def orderByTimestampDesc_def rev_map take_map
          messageOfRow_def comp_def)
  then show ?thesis
    by (simp add: sorted_rev_take_rev)
qed

lemma listMessages_sorted:
  assumes "listMessages d reqUser cid page limit = (Inr (st, msgs, conv), d')"
  shows "sorted (map timestamp msgs)"
  using assms selectMessages_sorted [of d cid]
  by (auto simp: listMessages_def Let_def split: option.splits if_splits)

text \<open>
  Claim C5. The messages returned are in ascending order of \<open>timestamp\<close>
  (\<open>listMessages_sorted\<close>), but \<open>page\<close> is never used
  (\<open>listMessages_page_irrelevant\<close>): with two messages in the conversation and a limit
  of one, page 2 returns the newest message, as page 1 does, and the older message is on
  no page.
\<close>

theorem listMessages_second_page:
  "listMessages historyDb brandUser chatId 2 (Some 1) =
     (Inr (200, [messageOfRow newerRow], conversationOfRow historyRow), historyDb) \<and>
   listMessages historyDb brandUser chatId 1 (Some 1) =
     (Inr (200, [messageOfRow newerRow], conversationOfRow historyRow), historyDb) \<and>
   olderRow \<in> set (messages historyDb) \<and> conversation_id olderRow = chatId"
proof -
  have conv: "conversations historyDb chatId = Some historyRow"
    and part: "uid brandUser \<in> set (participants historyRow)"
    by (simp_all add: historyRow_def store_defs)
  have sel: "selectMessages historyDb chatId (Suc 0) = [messageOfRow newerRow]"
    by (simp add: selectMessages_def orderByTimestampDesc_def historyDb_def olderRow_def
          newerRow_def)
  have old: "olderRow \<in> set (messages historyDb)" "conversation_id olderRow = chatId"
    by (simp_all add: historyDb_def olderRow_def)
  show ?thesis
    by (simp add: listMessages_def Let_def conv part sel old)
qed

section \<open>Evaluating the content filter\<close>

lemma filter_unfold:
  "filterSensitiveContent x =
     replaceAll False socialRegex mask
       (replaceAll True whatsappRegex mask
          (replaceAll False phoneRegex mask
             (replaceAll False emailRegex mask x)))"
  by (simp add: filterSensitiveContent_def)

lemmas eval_defs = js_def cc_def replaceAll_def replaceLoop.simps
  emailRegex_def phoneRegex_def whatsappRegex_def socialRegex_def repeatMatcher.simps
  canonicalize_def classMatches_def classHas_def isWhiteSpace_def range_def one_def plus_def
  opt_def lit_def separator_def mask_def

lemma filter_t_me: "filterSensitiveContent (js ''t.me'') = js ''*****''"
  by (simp add: filter_unfold eval_defs)

lemma trim_t_me: "trim (js '' t.me '') = js ''t.me''"
  by (simp add: trim_def isWhiteSpace_def js_def cc_def)


section \<open>The content filter on every input\<close>

subsection \<open>A matcher only moves forward\<close>

lemma behind_refl: "behind x x"
  by (simp add: behind_def)

lemma behind_trans: "behind x y \<Longrightarrow> behind y z \<Longrightarrow> behind x z"
  by (auto simp: behind_def)

lemma repeatMatcher_behind:
  "(\<And>a b. b \<in> set (m a) \<Longrightarrow> behind a b) \<Longrightarrow>
   y \<in> set (repeatMatcher m mn mx x) \<Longrightarrow> behind x y"
proof (induction m mn mx x arbitrary: y rule: repeatMatcher.induct)
  case (1 m mn mx x)
  note step = "1.prems"(1)
  show ?case
  proof (cases "mx = Some 0")
    case True
    with "1.prems"(2) show ?thesis by (simp add: repeatMatcher.simps behind_refl)
  next
    case False
    show ?thesis
    proof (cases "mn = 0")
      case True
      from "1.prems"(2) False True
      consider "y = x"
        | z where "z \<in> set (m x)" "length (snd z) < length (snd x)"
            "y \<in> set (repeatMatcher m 0 (map_option (\<lambda>k. k - 1) mx) z)"
        by (subst (asm) repeatMatcher.simps) auto
      then show ?thesis
      proof cases
        case 1
        then show ?thesis by (simp add: behind_refl)
      next
        case (2 z)
        have "z \<in> set (filter (\<lambda>y. length (snd y) < length (snd x)) (m x))"
          using 2(1,2) by simp
        from "1.IH"(2) [OF False _ this step 2(3)] True
        have "behind z y" by simp
        with step [OF 2(1)] show ?thesis by (rule behind_trans)
      qed
    next
      case nz: False
      from "1.prems"(2) False nz
      obtain z where z: "z \<in> set (m x)"
        "y \<in> set (repeatMatcher m (mn - 1) (map_option (\<lambda>k. k - 1) mx) z)"
        by (subst (asm) repeatMatcher.simps) auto
      from "1.IH"(1) [OF False nz z(1) step z(2)] have "behind z y" .
      with step [OF z(1)] show ?thesis by (rule behind_trans)
    qed
  qed
qed

lemma matcher_behind: "y \<in> set (matcher ic r x) \<Longrightarrow> behind x y"
proof (induction r arbitrary: x y)
  case Empty
  then show ?case by (simp add: behind_refl)
next
  case (Char a)
  then show ?case
    by (cases x) (auto simp: behind_def split: list.splits if_splits)
next
  case (Class atoms)
  then show ?case
    by (cases x) (auto simp: behind_def split: list.splits if_splits)
next
  case WordBoundary
  then show ?case
    by (cases x) (auto simp: behind_def split: if_splits)
next
  case (Seq a b)
  from Seq.prems obtain z where "z \<in> set (matcher ic a x)" "y \<in> set (matcher ic b z)"
    by auto
  then show ?case
    using Seq.IH by (blast intro: behind_trans)
next
  case (Alt a b)
  from Alt.prems have "y \<in> set (matcher ic a x) \<or> y \<in> set (matcher ic b x)"
    by simp
  then show ?case
    using Alt.IH by blast
next
  case (Repeat r mn mx)
  from Repeat.prems have "y \<in> set (repeatMatcher (matcher ic r) mn mx x)"
    by simp
  with Repeat.IH show ?case
    by (rule repeatMatcher_behind)
qed

subsection \<open>A literal matches where it occurs\<close>

lemma matcher_chars:
  "matcher ic (seq (map Char k)) (p, s) =
     (if occursAt ic k s
      then [(if k = [] then p else Some (s ! (length k - 1)), drop (length k) s)]
      else [])"
proof (induction k arbitrary: p s)
  case Nil
  show ?case by simp
next
  case (Cons a k)
  show ?case
  proof (cases s)
    case Nil
    then show ?thesis by simp
  next
    case (Cons c t)
    then show ?thesis
      using Cons.IH [of "Some c" t] by (auto simp: nth_Cons')
  qed
qed

lemma lit_seq: "lit k = seq (map Char (js k))"
  by (simp add: lit_def js_def comp_def)

lemma matcher_lit:
  "matcher ic (lit k) (p, s) =
     (if occursAt ic (js k) s
      then [(if js k = [] then p else Some (s ! (length (js k) - 1)), drop (length (js k)) s)]
      else [])"
  by (simp only: lit_seq matcher_chars)

subsection \<open>What a replacement leaves of the text\<close>

lemma mask_eq: "mask = [42, 42, 42, 42, 42]"
  by (simp add: mask_def js_def cc_def)

lemma canonicalize_star: "canonicalize ic 42 = canonicalize ic a \<longleftrightarrow> a = 42"
  by (auto simp: canonicalize_def)

lemma occursAt_star: "k \<noteq> [] \<Longrightarrow> 42 \<notin> set k \<Longrightarrow> \<not> occursAt ic k (42 # s)"
  by (cases k) (auto simp: canonicalize_star)

lemma occursIn_star:
  "k \<noteq> [] \<Longrightarrow> 42 \<notin> set k \<Longrightarrow> occursIn ic k (42 # s) = occursIn ic k s"
  by (simp add: occursAt_star)

lemma occursAt_mask: "k \<noteq> [] \<Longrightarrow> 42 \<notin> set k \<Longrightarrow> \<not> occursAt ic k (mask @ s)"
  by (simp add: mask_eq occursAt_star)

lemma occursIn_mask:
  "k \<noteq> [] \<Longrightarrow> 42 \<notin> set k \<Longrightarrow> occursIn ic k (mask @ s) = occursIn ic k s"
  by (simp add: mask_eq occursAt_star)

lemma occursIn_Nil: "k \<noteq> [] \<Longrightarrow> \<not> occursIn ic k []"
  by (cases k) simp_all

lemma occursIn_append: "occursIn ic k s \<Longrightarrow> occursIn ic k (u @ s)"
  by (induction u) (cases s; simp_all)+

lemma occursAt_length: "occursAt ic k s \<Longrightarrow> length k \<le> length s"
  by (induction ic k s rule: occursAt.induct) simp_all

text \<open>
  The replacement starts with an asterisk, so a text without asterisks that is at the
  start of the output of \<open>replace\<close> was at the start of its input.
\<close>

lemma replace_keeps_start:
  "rep = mask \<Longrightarrow> 42 \<notin> set k \<Longrightarrow> occursAt ic k (replaceLoop ic' r rep x) \<Longrightarrow>
     occursAt ic k (snd x)"
  "rep = mask \<Longrightarrow> 42 \<notin> set k \<Longrightarrow> occursAt ic k (afterExec ic' r rep x ms) \<Longrightarrow>
     occursAt ic k (snd x)"
proof (induction ic' r rep x and ic' r rep x ms arbitrary: k and k
    rule: replaceLoop_afterExec.induct)
  case (1 ic' r replacement p s)
  then show ?case by (simp add: replaceLoop.simps)
next
  case (2 ic' r replacement p)
  then show ?case by simp
next
  case (3 ic' r replacement p c t)
  show ?case
  proof (cases k)
    case Nil
    then show ?thesis by simp
  next
    case (Cons a k')
    with "3.prems" have "canonicalize ic c = canonicalize ic a"
      and "occursAt ic k' (replaceLoop ic' r replacement (Some c, t))"
      and "42 \<notin> set k'"
      by simp_all
    with "3.IH" [of k'] "3.prems"(1) Cons show ?thesis by simp
  qed
next
  case (4 ic' r replacement p s p' s' ms)
  show ?case
  proof (cases "k = []")
    case True
    then show ?thesis by simp
  next
    case False
    with "4.prems" occursAt_mask [of k ic] show ?thesis
      by (simp split: if_splits)
  qed
qed

text \<open>
  A text without asterisks that was nowhere in the input of \<open>replace\<close> is nowhere in
  its output.
\<close>

lemma replace_keeps_absent:
  "rep = mask \<Longrightarrow> k \<noteq> [] \<Longrightarrow> 42 \<notin> set k \<Longrightarrow> \<not> occursIn ic k (snd x) \<Longrightarrow>
     \<not> occursIn ic k (replaceLoop ic' r rep x)"
  "rep = mask \<Longrightarrow> k \<noteq> [] \<Longrightarrow> 42 \<notin> set k \<Longrightarrow> list_all (behind x) ms \<Longrightarrow>
     \<not> occursIn ic k (snd x) \<Longrightarrow> \<not> occursIn ic k (afterExec ic' r rep x ms)"
proof (induction ic' r rep x and ic' r rep x ms rule: replaceLoop_afterExec.induct)
  case (1 ic' r replacement p s)
  have "list_all (behind (p, s)) (matcher ic' r (p, s))"
    by (simp add: list_all_iff matcher_behind)
  with 1 show ?case by (simp add: replaceLoop.simps)
next
  case (2 ic' r replacement p)
  then show ?case by (simp add: occursIn_Nil)
next
  case (3 ic' r replacement p c t)
  from "3.prems" have no: "\<not> occursAt ic k (c # t)" "\<not> occursIn ic k t"
    by simp_all
  have "\<not> occursAt ic k (afterExec ic' r replacement (p, c # t) [])"
    using replace_keeps_start(2) [OF "3.prems"(1) "3.prems"(3), of ic ic' r "(p, c # t)" "[]"] no(1)
    by auto
  moreover have "\<not> occursIn ic k (replaceLoop ic' r replacement (Some c, t))"
    using "3.IH" "3.prems"(1-3) no(2) by simp
  ultimately show ?case by simp
next
  case (4 ic' r replacement p s p' s' ms)
  from "4.prems"(4) obtain u where "s = u @ s'"
    by (auto simp: behind_def)
  with "4.prems"(5) have "\<not> occursIn ic k s'"
    using occursIn_append [of ic k s' u] by auto
  with 4 show ?case
    by (simp add: occursIn_mask)
qed

subsection \<open>The messaging-app pattern\<close>

lemma appWords_plain: "k \<in> set appWords \<Longrightarrow> k \<noteq> [] \<and> 42 \<notin> set k"
  by (auto simp: appWords_def js_def cc_def)

lemma lit_match_consumes:
  assumes "k \<noteq> []" and "y \<in> set (matcher ic (lit k) (p, s))"
  shows "length (snd y) < length s"
proof -
  from assms(1) have pos: "0 < length (js k)"
    by (simp add: js_def)
  from assms(2) have at: "occursAt ic (js k) s" and y: "snd y = drop (length (js k)) s"
    by (auto simp: matcher_lit split: if_splits)
  from at have "length (js k) \<le> length s"
    by (rule occursAt_length)
  with pos have "length s - length (js k) < length s"
    by arith
  with y show ?thesis
    by (simp only: length_drop)
qed

lemma whatsapp_no_match:
  "matcher True whatsappRegex (p, s) = [] \<Longrightarrow> k \<in> set appWords \<Longrightarrow> \<not> occursAt True k s"
  by (auto simp: whatsappRegex_def matcher_lit appWords_def split: if_splits)

lemma whatsapp_match_consumes:
  assumes "y \<in> set (matcher True whatsappRegex (p, s))"
  shows "length (snd y) < length s"
proof -
  from assms consider
      "y \<in> set (matcher True (lit ''whatsapp'') (p, s))"
    | "y \<in> set (matcher True (lit ''wa.me'') (p, s))"
    | "y \<in> set (matcher True (lit ''t.me'') (p, s))"
    | "y \<in> set (matcher True (lit ''telegram'') (p, s))"
    by (auto simp: whatsappRegex_def)
  then show ?thesis
    by cases (erule lit_match_consumes [rotated], simp)+
qed

text \<open>
  After the replacement of the messaging-app pattern none of its alternatives is left, in
  any letter case.
\<close>

lemma whatsapp_replaced:
  "ic' = True \<Longrightarrow> r = whatsappRegex \<Longrightarrow> rep = mask \<Longrightarrow> k \<in> set appWords \<Longrightarrow>
     \<not> occursIn True k (replaceLoop ic' r rep x)"
  "ic' = True \<Longrightarrow> r = whatsappRegex \<Longrightarrow> rep = mask \<Longrightarrow> k \<in> set appWords \<Longrightarrow>
     (ms = [] \<longrightarrow> \<not> occursAt True k (snd x)) \<Longrightarrow>
     list_all (\<lambda>y. length (snd y) < length (snd x)) ms \<Longrightarrow>
     \<not> occursIn True k (afterExec ic' r rep x ms)"
proof (induction ic' r rep x and ic' r rep x ms rule: replaceLoop_afterExec.induct)
  case (1 ic' r replacement p s)
  have "list_all (\<lambda>y. length (snd y) < length s) (matcher True whatsappRegex (p, s))"
    by (simp add: list_all_iff whatsapp_match_consumes)
  moreover have "matcher True whatsappRegex (p, s) = [] \<longrightarrow> \<not> occursAt True k s"
    using whatsapp_no_match "1.prems"(4) by blast
  ultimately show ?case
    using 1 by (simp add: replaceLoop.simps)
next
  case (2 ic' r replacement p)
  then show ?case by (simp add: occursIn_Nil appWords_plain)
next
  case (3 ic' r replacement p c t)
  from "3.prems" have plain: "42 \<notin> set k" and no: "\<not> occursAt True k (c # t)"
    by (simp_all add: appWords_plain)
  have "\<not> occursAt True k (afterExec ic' r replacement (p, c # t) [])"
    using replace_keeps_start(2) [OF "3.prems"(3) plain, of True ic' r "(p, c # t)" "[]"] no
    by auto
  moreover have "\<not> occursIn True k (replaceLoop ic' r replacement (Some c, t))"
    using "3.IH" "3.prems"(1-4) by simp
  ultimately show ?case by simp
next
  case (4 ic' r replacement p s p' s' ms)
  then show ?case
    by (simp add: occursIn_mask appWords_plain)
qed

subsection \<open>Text made of asterisks\<close>

lemma email_no_star:
  "matcher False emailRegex (p, 42 # t) = []" "matcher False emailRegex (p, []) = []"
  by (simp_all add: eval_defs)

lemma phone_no_star:
  "matcher False phoneRegex (p, 42 # t) = []" "matcher False phoneRegex (p, []) = []"
  by (simp_all add: eval_defs)

lemma whatsapp_no_star:
  "matcher True whatsappRegex (p, 42 # t) = []" "matcher True whatsappRegex (p, []) = []"
  by (simp_all add: eval_defs)

lemma social_no_star:
  "matcher False socialRegex (p, 42 # t) = []" "matcher False socialRegex (p, []) = []"
  by (simp_all add: eval_defs)

lemma replaceLoop_stars:
  assumes "\<And>p t. matcher ic r (p, 42 # t) = []" and "\<And>p. matcher ic r (p, []) = []"
  shows "set s \<subseteq> {42} \<Longrightarrow> replaceLoop ic r rep (p, s) = s"
  by (induction s arbitrary: p) (simp_all add: replaceLoop.simps assms)

lemma filter_stars: "set s \<subseteq> {42} \<Longrightarrow> filterSensitiveContent s = s"
  by (simp add: filter_unfold replaceAll_def replaceLoop_stars email_no_star phone_no_star
        whatsapp_no_star social_no_star)

lemma masks_are_stars: "set (concat (replicate n mask)) \<subseteq> {42}"
  by (auto simp: mask_eq)

subsection \<open>Occurrence, spelled out\<close>

lemma occursAt_iff:
  "occursAt ic k s \<longleftrightarrow>
     (\<exists>w v. s = w @ v \<and> map (canonicalize ic) w = map (canonicalize ic) k)"
proof (induction ic k s rule: occursAt.induct)
  case (1 ic s)
  show ?case by simp
next
  case (2 ic a k)
  show ?case by simp
next
  case (3 ic a k c t)
  show ?case
  proof
    assume "occursAt ic (a # k) (c # t)"
    with 3 obtain w v where "t = w @ v" "map (canonicalize ic) w = map (canonicalize ic) k"
      and "canonicalize ic c = canonicalize ic a"
      by auto
    then have "c # t = (c # w) @ v \<and>
        map (canonicalize ic) (c # w) = map (canonicalize ic) (a # k)"
      by simp
    then show "\<exists>w v. c # t = w @ v \<and>
        map (canonicalize ic) w = map (canonicalize ic) (a # k)"
      by blast
  next
    assume "\<exists>w v. c # t = w @ v \<and> map (canonicalize ic) w = map (canonicalize ic) (a # k)"
    then obtain w v where wv: "c # t = w @ v"
      "map (canonicalize ic) w = map (canonicalize ic) (a # k)"
      by blast
    from wv(2) obtain b w' where w: "w = b # w'"
      by (cases w) auto
    with wv have "b = c" "t = w' @ v" "canonicalize ic b = canonicalize ic a"
      "map (canonicalize ic) w' = map (canonicalize ic) k"
      by simp_all
    with 3 show "occursAt ic (a # k) (c # t)"
      by auto
  qed
qed

lemma occursIn_iff:
  "occursIn ic k s \<longleftrightarrow>
     (\<exists>u w v. s = u @ w @ v \<and> map (canonicalize ic) w = map (canonicalize ic) k)"
proof (induction s)
  case Nil
  show ?case by (auto simp: occursAt_iff)
next
  case (Cons c t)
  show ?case
  proof
    assume "occursIn ic k (c # t)"
    then consider "occursAt ic k (c # t)" | "occursIn ic k t"
      by auto
    then show "\<exists>u w v. c # t = u @ w @ v \<and>
        map (canonicalize ic) w = map (canonicalize ic) k"
    proof cases
      case 1
      then obtain w v where "c # t = [] @ w @ v"
        "map (canonicalize ic) w = map (canonicalize ic) k"
        by (auto simp: occursAt_iff)
      then show ?thesis by blast
    next
      case 2
      with Cons obtain u w v where "c # t = (c # u) @ w @ v"
        "map (canonicalize ic) w = map (canonicalize ic) k"
        by auto
      then show ?thesis by blast
    qed
  next
    assume "\<exists>u w v. c # t = u @ w @ v \<and> map (canonicalize ic) w = map (canonicalize ic) k"
    then obtain u w v where uwv: "c # t = u @ w @ v"
      "map (canonicalize ic) w = map (canonicalize ic) k"
      by blast
    show "occursIn ic k (c # t)"
    proof (cases u)
      case Nil
      with uwv have "occursAt ic k (c # t)"
        by (auto simp: occursAt_iff)
      then show ?thesis by simp
    next
      case (Cons b u')
      with uwv have "t = u' @ w @ v" by simp
      with uwv(2) Cons.IH have "occursIn ic k t" by blast
      then show ?thesis by simp
    qed
  qed
qed

lemma occursIn_exact: "occursIn False k s \<longleftrightarrow> (\<exists>u v. s = u @ k @ v)"
proof -
  have "map (canonicalize False) w = w" for w
    by (induction w) (simp_all add: canonicalize_def)
  then show ?thesis
    by (simp add: occursIn_iff)
qed

subsection \<open>The claims about the content filter\<close>

lemma app_words_removed:
  assumes "k \<in> set appWords"
  shows "\<not> occursIn True k (filterSensitiveContent x)"
proof -
  from assms have plain: "k \<noteq> []" "42 \<notin> set k"
    by (simp_all add: appWords_plain)
  have "\<not> occursIn True k (replaceLoop True whatsappRegex mask (None, y))" for y
    using assms by (rule whatsapp_replaced(1) [OF refl refl refl])
  then have "\<not> occursIn True k
      (replaceLoop False socialRegex mask (None, replaceLoop True whatsappRegex mask (None, y)))"
    for y
    using replace_keeps_absent(1) [OF refl plain,
        of True "(None, replaceLoop True whatsappRegex mask (None, y))" False socialRegex]
    by simp
  then show ?thesis
    by (simp add: filter_unfold replaceAll_def)
qed

text \<open>
  Claim C10. Whatever the input, the output of the content filter has no occurrence of
  \<open>whatsapp\<close>, \<open>wa.me\<close>, \<open>t.me\<close> or \<open>telegram\<close> in any letter case: the third
  replacement removes every occurrence and the fourth, which only puts asterisks in,
  brings none back.
\<close>

theorem filter_removes_app_words:
  "\<not> occursIn True (js ''whatsapp'') (filterSensitiveContent x) \<and>
   \<not> occursIn True (js ''wa.me'') (filterSensitiveContent x) \<and>
   \<not> occursIn True (js ''t.me'') (filterSensitiveContent x) \<and>
   \<not> occursIn True (js ''telegram'') (filterSensitiveContent x)"
  by (simp add: app_words_removed appWords_def)

text \<open>
  Claim C7. The three examples of the specification: the mail address and the word
  \<open>telegram\<close> are replaced by the mask, so that the output differs from the input
  (\<open>isFiltered\<close> is true), and the third text is returned as it is (\<open>isFiltered\<close> is
  false).
\<close>

theorem filter_examples:
  "filterSensitiveContent (js ''reach me at test@example.com'') = js ''reach me at *****'' \<and>
   \<not> occursIn False (js ''@example.com'')
       (filterSensitiveContent (js ''reach me at test@example.com'')) \<and>
   filterSensitiveContent (js ''reach me at test@example.com'') \<noteq>
     js ''reach me at test@example.com'' \<and>
   filterSensitiveContent (js ''find me on telegram'') = js ''find me on *****'' \<and>
   \<not> occursIn True (js ''telegram'') (filterSensitiveContent (js ''find me on telegram'')) \<and>
   filterSensitiveContent (js ''find me on telegram'') \<noteq> js ''find me on telegram'' \<and>
   filterSensitiveContent (js ''great collab idea!'') = js ''great collab idea!''"
proof -
  have 1: "filterSensitiveContent (js ''reach me at test@example.com'') =
      js ''reach me at *****''"
    by (simp add: filter_unfold eval_defs)
  have 2: "filterSensitiveContent (js ''find me on telegram'') = js ''find me on *****''"
    by (simp add: filter_unfold eval_defs)
  have 3: "filterSensitiveContent (js ''great collab idea!'') = js ''great collab idea!''"
    by (simp add: filter_unfold eval_defs)
  have 4: "\<not> occursIn False (js ''@example.com'') (js ''reach me at *****'')"
    by (simp add: js_def cc_def canonicalize_def)
  have 5: "\<not> occursIn True (js ''telegram'') (js ''find me on *****'')"
    by (simp add: js_def cc_def canonicalize_def)
  have 6: "js ''reach me at *****'' \<noteq> js ''reach me at test@example.com''"
    "js ''find me on *****'' \<noteq> js ''find me on telegram''"
    by (simp_all add: js_def cc_def)
  show ?thesis
    by (simp only: 1 2 3 4 5 6 simp_thms)
qed

text \<open>
  Claim C9, as the filter has it. A text that consists of mask tokens only is returned as
  it is, so filtering it twice is filtering it once.
\<close>

theorem filter_idempotent_on_masks:
  "filterSensitiveContent (concat (replicate n mask)) = concat (replicate n mask) \<and>
   filterSensitiveContent (filterSensitiveContent (concat (replicate n mask))) =
     filterSensitiveContent (concat (replicate n mask))"
proof -
  have "filterSensitiveContent (concat (replicate n mask)) = concat (replicate n mask)"
    by (rule filter_stars) (rule masks_are_stars)
  then show ?thesis by simp
qed

text \<open>
  On outputs of the filter in general the equation fails. In \<open>a@-b.co123\<close> the first
  pattern finds no mail address, because the digits follow the domain without a word
  boundary; the second pattern then masks the digits, and the fourth leaves the \<open>@\<close>,
  which a hyphen follows. Filtered again, the text has a word boundary after \<open>co\<close>,
  and the first pattern takes \<open>a@-b.co\<close> for a mail address.
\<close>

theorem filter_idempotent_counterexample:
  "filterSensitiveContent (js ''a@-b.co123'') = js ''a@-b.co*****'' \<and>
   filterSensitiveContent (filterSensitiveContent (js ''a@-b.co123'')) = js ''**********'' \<and>
   filterSensitiveContent (filterSensitiveContent (js ''a@-b.co123'')) \<noteq>
     filterSensitiveContent (js ''a@-b.co123'')"
proof -
  have 1: "filterSensitiveContent (js ''a@-b.co123'') = js ''a@-b.co*****''"
    by (simp add: filter_unfold eval_defs)
  have 2: "filterSensitiveContent (js ''a@-b.co*****'') = js ''**********''"
    by (simp add: filter_unfold eval_defs)
  have 3: "js ''**********'' \<noteq> js ''a@-b.co*****''"
    by (simp add: js_def cc_def)
  show ?thesis
    by (simp only: 1 2 3 simp_thms)
qed

section \<open>The claims at concrete requests\<close>

theorem sendMessage_success_witness:
  "\<exists>msg d'. sendMessage chatDb brandUser chatId (Some (js '' t.me '')) (js ''msg_1'') 2000 =
       (Inr (201, msg, True), d') \<and>
     message msg = js ''*****'' \<and> isFiltered msg \<and>
     map message_text (messages d') = [js ''*****''] \<and>
     map_option last_message (conversations d' chatId) = Some (Some (js ''*****'')) \<and>
     map_option last_message_time (conversations d' chatId) = Some (Some 2000)"
proof -
  have conv: "conversations chatDb chatId = Some chatRow"
    and part: "uid brandUser \<in> set (participants chatRow)"
    and none: "messages chatDb = []"
    by (simp_all add: store_defs)
  have ne: "js ''t.me'' \<noteq> []" "js '' t.me '' \<noteq> []" "js ''*****'' \<noteq> js ''t.me''"
    by (simp_all add: js_def cc_def)
  have wf: "isWellFormed (js ''*****'')" "toWellFormed (js ''*****'') = js ''*****''"
    "pgText (js ''*****'') = Some (js ''*****'')"
    by (simp_all add: pgText_def js_def cc_def isLeadSurrogate_def isTrailSurrogate_def)
  have "\<exists>msg d'. sendMessage chatDb brandUser chatId (Some (js '' t.me '')) (js ''msg_1'') 2000 =
       (Inr (201, msg, True), d') \<and> timestamp msg = 2000"
    by (simp add: sendMessage_def Let_def trim_t_me filter_t_me conv part none ne wf)
  then obtain msg d' where
    run: "sendMessage chatDb brandUser chatId (Some (js '' t.me '')) (js ''msg_1'') 2000 =
       (Inr (201, msg, True), d')" and ts: "timestamp msg = 2000"
    by blast
  from sendMessage_success [OF run] show ?thesis
    using run ts by (auto simp: trim_t_me filter_t_me none ne wf)
qed

text \<open>
  The claim that the stored text is the filtered text itself fails on a text with a lone
  surrogate: the message \<open>x\<close>, U+D800, \<open>y\<close> passes the filter unchanged and is
  answered with 201 and that text, and the row stored holds \<open>x\<close>, U+FFFD, \<open>y\<close>.
\<close>

theorem sendMessage_success_counterexample:
  "fst (sendMessage chatDb brandUser chatId (Some [120, 55296, 121]) (js ''msg_1'') 2000) =
     Inr (201,
          \<lparr>messageId = js ''msg_1'', senderId = js ''u_brand'',
            senderName = Some (js ''brand@shop.io''), message = [120, 55296, 121],
            timestamp = 2000, isFiltered = False\<rparr>,
          False) \<and>
   map message_text
     (messages (snd (sendMessage chatDb brandUser chatId (Some [120, 55296, 121])
        (js ''msg_1'') 2000))) = [[120, 65533, 121]] \<and>
   filterSensitiveContent (trim [120, 55296, 121]) = [120, 55296, 121]"
proof -
  have t: "trim [120, 55296, 121] = [120, 55296, 121]"
    by (simp add: trim_def isWhiteSpace_def)
  have f: "filterSensitiveContent [120, 55296, 121] = [120, 55296, 121]"
    by (simp add: filter_unfold eval_defs)
  have p: "pgText [120, 55296, 121] = Some [120, 65533, 121]"
    by (simp add: pgText_def isLeadSurrogate_def isTrailSurrogate_def)
  have conv: "conversations chatDb chatId = Some chatRow"
    and part: "js ''u_brand'' \<in> set (participants chatRow)"
    and none: "messages chatDb = []"
    and who: "uid brandUser = js ''u_brand''" "email brandUser = Some (js ''brand@shop.io'')"
    by (simp_all add: store_defs)
  have ne: "js ''brand@shop.io'' \<noteq> []"
    by (simp add: js_def)
  show ?thesis
    by (simp add: sendMessage_def Let_def js_or_def t f p conv part none who ne)
qed


theorem createOrGetConversation_pairing_witness:
  "(\<exists>st cid conv d'.
      createOrGetConversation directory brandUser (Some (js ''u_creator'')) 1000 1000 =
        (Inr (st, cid, conv), d')) \<and>
   createOrGetConversation (directory\<lparr>users := (users directory)
        (js ''u_creator'' \<mapsto> creatorUser\<lparr>role := js ''brand''\<rparr>)\<rparr>)
      brandUser (Some (js ''u_creator'')) 1000 1000 =
     (Inl (HttpError 403
        ''Chat is only allowed between brands and influencers/UGC creators''),
      directory\<lparr>users := (users directory)
        (js ''u_creator'' \<mapsto> creatorUser\<lparr>role := js ''brand''\<rparr>)\<rparr>)"
proof -
  have ne: "js ''u_creator'' \<noteq> []" "js ''u_creator'' \<noteq> uid brandUser"
    by (simp_all add: store_defs)
  have u: "users directory (js ''u_creator'') = Some creatorUser"
    by (simp add: store_defs)
  have u': "users (directory\<lparr>users := (users directory)
        (js ''u_creator'' \<mapsto> creatorUser\<lparr>role := js ''brand''\<rparr>)\<rparr>) (js ''u_creator'')
      = Some (creatorUser\<lparr>role := js ''brand''\<rparr>)"
    by simp
  have r: "role brandUser = js ''brand''" "role creatorUser = js ''influencer''"
    by (simp_all add: brandUser_def creatorUser_def)
  show ?thesis
    using createOrGetConversation_pairing [OF ne u, of 1000 1000]
      createOrGetConversation_pairing [OF ne u', of 1000 1000] r
    by simp
qed

theorem createOrGetConversation_self_witness:
  "createOrGetConversation chatDb brandUser (Some (js ''u_brand'')) 5000 5000 =
     (Inl (HttpError 400 ''Cannot create conversation with yourself''), chatDb)"
proof -
  have "js ''u_brand'' \<noteq> []" and "uid brandUser = js ''u_brand''"
    by (simp_all add: store_defs)
  then show ?thesis by (rule createOrGetConversation_self)
qed

theorem conversationId_order_independent_witness:
  "min (js ''u_brand'') (js ''u_creator'') @ js ''_'' @ max (js ''u_brand'') (js ''u_creator'')
     = chatId"
proof -
  have 1: "createOrGetConversation directory brandUser (Some (js ''u_creator'')) 1000 1000 =
      (Inr (201, chatId, conversationOfRow chatRow), chatDb)"
    by (simp add: createOrGetConversation_def validCombinations_def conversationId_def
          conversationOfRow_def js_or_def Let_def store_defs)
  have "\<exists>conv d'. createOrGetConversation directory creatorUser (Some (js ''u_brand'')) 1000 1000 =
      (Inr (201, chatId, conv), d')"
    by (simp add: createOrGetConversation_def validCombinations_def conversationId_def
          conversationOfRow_def js_or_def Let_def store_defs)
  then obtain conv d' where
    2: "createOrGetConversation directory creatorUser (Some (js ''u_brand'')) 1000 1000 =
      (Inr (201, chatId, conv), d')"
    by blast
  have "uid brandUser = js ''u_brand''" and "uid creatorUser = js ''u_creator''"
    by (simp_all add: brandUser_def creatorUser_def)
  from conversationId_order_independent [OF 1 2 this] show ?thesis
    by simp
qed

theorem createOrGetConversation_second_call_witness:
  "createOrGetConversation chatDb brandUser (Some (js ''u_creator'')) 7000 7001 =
     (Inr (200, chatId, conversationOfRow chatRow), chatDb)"
proof -
  have 1: "createOrGetConversation directory brandUser (Some (js ''u_creator'')) 1000 1000 =
      (Inr (201, chatId, conversationOfRow chatRow), chatDb)"
    by (simp add: createOrGetConversation_def validCombinations_def conversationId_def
          conversationOfRow_def js_or_def Let_def store_defs)
  have 2: "users chatDb (js ''u_creator'') = Some creatorUser"
    by (simp add: store_defs)
  have 3: "list_ex (\<lambda>combo. combo) (validCombinations (role brandUser) (role creatorUser))"
    by (simp add: validCombinations_def brandUser_def creatorUser_def)
  show ?thesis
    by (rule createOrGetConversation_second_call [OF 1 refl refl 2 3])
qed

end
